theory Spec2Isabelle
  imports Main "HOL-Library.Word"
begin

section \<open>The etcpak command-line driver (Application.cpp)\<close>

text \<open>
  The development embeds \<^verbatim>\<open>main\<close> of \<^verbatim>\<open>Application.cpp\<close>: option parsing, the
  forced disabling of dithering, the choice of the block format, the benchmark loops,
  the view mode and the encoding pipeline. The collaborators whose code lives in other
  files (\<^verbatim>\<open>DataProvider\<close>, \<^verbatim>\<open>Bitmap\<close>, \<^verbatim>\<open>BlockData\<close>, \<^verbatim>\<open>TaskDispatch\<close>, \<^verbatim>\<open>System\<close>)
  are parameters: what they return is read from an environment, and every call that
  \<^verbatim>\<open>main\<close> makes on them is recorded, in program order, in a trace of events.
  Registering the debug callback (line 46) and reading the clock (\<^verbatim>\<open>GetTime\<close>) leave no
  event; the messages that \<^verbatim>\<open>main\<close> prints are events without their numbers.
\<close>

subsection \<open>Data\<close>

type_synonym uint = "32 word"

text \<open>\<^verbatim>\<open>BlockData::Type\<close> and \<^verbatim>\<open>Channels\<close>, as \<^verbatim>\<open>main\<close> uses them.\<close>

datatype Type = Etc1 | Etc2_RGB | Etc2_RGBA | Dxt1

datatype Channels = RGB | Alpha

text \<open>
  One result of \<^verbatim>\<open>getopt_long( argc, argv, "vo:a:sbmd", longopts, nullptr )\<close> other than
  the final \<^verbatim>\<open>-1\<close>: the character \<^verbatim>\<open>'?'\<close>, a short option (with \<^verbatim>\<open>optarg\<close> for
  \<^verbatim>\<open>o:\<close> and \<^verbatim>\<open>a:\<close>), or the \<^verbatim>\<open>val\<close> of a long option.
\<close>

datatype getopt_result =
    Opt_unknown
  | Opt_v
  | Opt_o string
  | Opt_a string
  | Opt_s
  | Opt_b
  | Opt_m
  | Opt_d
  | OptEtc2
  | OptRgba
  | OptDxt1

text \<open>The local variables of \<^verbatim>\<open>main\<close> that the options set (lines 48 to 56).\<close>

record flags =
  viewMode :: bool
  stats :: bool
  benchmark :: bool
  mipmap :: bool
  dither :: bool
  etc2 :: bool
  rgba :: bool
  dxt1 :: bool
  alpha :: "string option"

definition flags0 :: flags where
  "flags0 = \<lparr> viewMode = False, stats = False, benchmark = False, mipmap = False,
              dither = False, etc2 = False, rgba = False, dxt1 = False, alpha = None \<rparr>"

text \<open>
  The command line as \<^verbatim>\<open>main\<close> sees it: \<^verbatim>\<open>argc\<close>, the successive results of
  \<^verbatim>\<open>getopt_long\<close> up to its \<^verbatim>\<open>-1\<close>, and the operands \<^verbatim>\<open>argv[optind]\<close>,
  \<^verbatim>\<open>argv[optind+1]\<close>, ... left after the loop, so that \<^verbatim>\<open>argc - optind\<close> is their
  number.
\<close>

record cmdline =
  argc :: int
  getopts :: "getopt_result list"
  operands :: "string list"

text \<open>
  Modelled from the spec: the declarations of \<^verbatim>\<open>v2i\<close>, \<^verbatim>\<open>DataPart\<close>, \<^verbatim>\<open>DataProvider\<close>
  and \<^verbatim>\<open>Bitmap\<close> are in headers that are not part of the source at hand. A partition
  has the four fields \<^verbatim>\<open>src\<close>, \<^verbatim>\<open>width\<close>, \<^verbatim>\<open>lines\<close>, \<^verbatim>\<open>offset\<close> that \<^verbatim>\<open>main\<close> reads;
  the integer fields are taken as 32-bit machine integers and the pixel pointers as
  addresses. The partitioner is what its three queries return: the number of parts,
  the part handed out by the k-th call of \<^verbatim>\<open>NextPart\<close> (counted from 0), whether the
  source has an alpha channel, and the size of the base level.
\<close>

record v2i =
  x :: uint
  y :: uint

record DataPart =
  src :: nat
  width :: uint
  lines :: uint
  offset :: uint

record DataProvider =
  NumberOfParts :: nat
  NextPart :: "nat \<Rightarrow> DataPart"
  dp_Alpha :: bool
  dp_Size :: v2i

record Bitmap =
  bmp_Data :: nat
  bmp_Size :: v2i

text \<open>
  The environment of a run: \<^verbatim>\<open>System::CPUCores()\<close>, and what the constructors
  \<^verbatim>\<open>Bitmap( input, max, bgr )\<close> and \<^verbatim>\<open>DataProvider( input, mipmap, bgr )\<close> load.
\<close>

record env =
  CPUCores :: uint
  load_Bitmap :: "string \<Rightarrow> bool \<Rightarrow> Bitmap"
  load_DataProvider :: "string \<Rightarrow> bool \<Rightarrow> bool \<Rightarrow> DataProvider"

subsection \<open>Events\<close>

text \<open>
  The two block buffers of the encoding path: \<^verbatim>\<open>bd\<close> (colour) and \<^verbatim>\<open>bda\<close> (separate
  alpha). A call is one of the two encoding entry points of \<^verbatim>\<open>BlockData\<close> with the
  arguments \<^verbatim>\<open>main\<close> passes: source pointer, block count, offset, width, and for
  \<^verbatim>\<open>Process\<close> the channel and the dither flag. The integer arguments are recorded
  with the 32 bits they have where \<^verbatim>\<open>main\<close> computes them. A unit given to
  \<^verbatim>\<open>TaskDispatch::Queue\<close> is the call its closure makes; the benchmark loop makes its
  calls itself.
\<close>

datatype bdref = BD | BDA

datatype call =
    Process bdref nat uint uint uint Channels bool
  | ProcessRGBA bdref nat uint uint uint

datatype event =
    Usage
  | Printf_dither_disabled
  | New_BlockData_file bdref string
  | New_Bitmap string bool
  | New_DataProvider string bool bool
  | New_TaskDispatch uint
  | New_BlockData bdref "string option" v2i bool Type
  | Queue call
  | Run call
  | Sync
  | Decode bdref
  | Write string
  | CalcMSE3
  | Printf_stats
  | Printf_load_time
  | Printf_median_decode
  | Printf_median_compress

subsection \<open>Option parsing (lines 79 to 124)\<close>

text \<open>
  One turn of the \<^verbatim>\<open>switch\<close>. \<^verbatim>\<open>None\<close> is the \<^verbatim>\<open>'?'\<close> case, which prints the usage
  and returns 1. \<^verbatim>\<open>-o\<close> is accepted by the option string and has no case of its own.
\<close>

fun getopt_case :: "getopt_result \<Rightarrow> flags \<Rightarrow> flags option" where
  "getopt_case Opt_unknown f = None"
| "getopt_case Opt_v f = Some (f\<lparr>viewMode := True\<rparr>)"
| "getopt_case (Opt_a optarg) f = Some (f\<lparr>alpha := Some optarg\<rparr>)"
| "getopt_case Opt_s f = Some (f\<lparr>stats := True\<rparr>)"
| "getopt_case Opt_b f = Some (f\<lparr>benchmark := True\<rparr>)"
| "getopt_case Opt_m f = Some (f\<lparr>mipmap := True\<rparr>)"
| "getopt_case Opt_d f = Some (f\<lparr>dither := True\<rparr>)"
| "getopt_case OptEtc2 f = Some (f\<lparr>etc2 := True\<rparr>)"
| "getopt_case OptRgba f = Some (f\<lparr>rgba := True, etc2 := True\<rparr>)"
| "getopt_case OptDxt1 f = Some (f\<lparr>dxt1 := True\<rparr>)"
| "getopt_case (Opt_o optarg) f = Some f"

fun getopt_loop :: "getopt_result list \<Rightarrow> flags \<Rightarrow> flags option" where
  "getopt_loop [] f = Some f"
| "getopt_loop (c # cs) f =
     (case getopt_case c f of None \<Rightarrow> None | Some f' \<Rightarrow> getopt_loop cs f')"

text \<open>Lines 120 to 124: the message and the flag after it.\<close>

definition dither_message :: "flags \<Rightarrow> event list" where
  "dither_message f = (if etc2 f \<and> dither f then [Printf_dither_disabled] else [])"

definition disable_dither :: "flags \<Rightarrow> flags" where
  "disable_dither f = (if etc2 f \<and> dither f then f\<lparr>dither := False\<rparr> else f)"

subsection \<open>Format selection\<close>

text \<open>Lines 185 to 188, the benchmark loop.\<close>

definition benchmark_type :: "flags \<Rightarrow> Type" where
  "benchmark_type f =
     (if rgba f then Etc2_RGBA
      else if etc2 f then Etc2_RGB
      else if dxt1 f then Dxt1
      else Etc1)"

text \<open>Lines 218 to 237, the encoding path; the second argument is \<^verbatim>\<open>dp.Alpha()\<close>.\<close>

definition encode_type :: "flags \<Rightarrow> bool \<Rightarrow> Type" where
  "encode_type f dpAlpha =
     (if etc2 f then
        (if rgba f \<and> dpAlpha then Etc2_RGBA else Etc2_RGB)
      else if dxt1 f then Dxt1
      else Etc1)"

subsection \<open>Benchmark mode (lines 150 to 206)\<close>

text \<open>
  \<^verbatim>\<open>bmp->Size().x * bmp->Size().y / 16\<close> is a product and a truncating division of
  32-bit signed integers.
\<close>

definition sdiv32 :: "uint \<Rightarrow> uint \<Rightarrow> uint" where
  "sdiv32 a b = word_of_int (sgn (sint a) * sgn (sint b) * (\<bar>sint a\<bar> div \<bar>sint b\<bar>))"

definition benchmark_decode :: "string \<Rightarrow> event list" where
  "benchmark_decode input =
     [New_BlockData_file BD input] @ replicate 9 (Decode BD) @ [Printf_median_decode]"

definition benchmark_task :: "flags \<Rightarrow> Bitmap \<Rightarrow> event list" where
  "benchmark_task f bmp =
     (let channel = (if alpha f \<noteq> None then Alpha else RGB);
          type = benchmark_type f;
          size = bmp_Size bmp
      in [New_BlockData BD None size False type,
          (if rgba f
           then Run (ProcessRGBA BD (bmp_Data bmp) (sdiv32 (x size * y size) 16) 0 (x size))
           else Run (Process BD (bmp_Data bmp) (sdiv32 (x size * y size) 16) 0 (x size)
                       channel (dither f)))])"

definition benchmark_encode :: "env \<Rightarrow> flags \<Rightarrow> string \<Rightarrow> event list" where
  "benchmark_encode E f input =
     (let bmp = load_Bitmap E input (\<not> dxt1 f)
      in [New_Bitmap input (\<not> dxt1 f), Printf_load_time]
         @ concat (replicate 9 (benchmark_task f bmp))
         @ [Printf_median_compress])"

subsection \<open>The encoding path (lines 213 to 284)\<close>

text \<open>
  The body of the \<^verbatim>\<open>for\<close> loop for one part: the units it queues. The second
  argument says whether \<^verbatim>\<open>bda\<close> holds a buffer.
\<close>

definition queue_part :: "Type \<Rightarrow> bool \<Rightarrow> bool \<Rightarrow> DataPart \<Rightarrow> event list" where
  "queue_part type has_bda dith part =
     (if type = Etc2_RGBA
      then [Queue (ProcessRGBA BD (src part) (width part div 4 * lines part)
                     (offset part) (width part))]
      else Queue (Process BD (src part) (width part div 4 * lines part)
                    (offset part) (width part) RGB dith)
           # (if has_bda
              then [Queue (Process BDA (src part) (width part div 4 * lines part)
                             (offset part) (width part) Alpha False)]
              else []))"

text \<open>\<^verbatim>\<open>for( int i=0; i<num; i++ )\<close>, from the current value of \<^verbatim>\<open>i\<close>.\<close>

function dispatch_loop ::
  "nat \<Rightarrow> nat \<Rightarrow> DataProvider \<Rightarrow> Type \<Rightarrow> bool \<Rightarrow> bool \<Rightarrow> event list" where
  "dispatch_loop i num dp type has_bda dith =
     (if i < num
      then queue_part type has_bda dith (NextPart dp i)
           @ dispatch_loop (Suc i) num dp type has_bda dith
      else [])"
  by pat_completeness auto
termination
  by (relation "measure (\<lambda>(i, num, _). num - i)") auto

declare dispatch_loop.simps [simp del]

definition encode :: "env \<Rightarrow> flags \<Rightarrow> string \<Rightarrow> string \<Rightarrow> event list" where
  "encode E f input output =
     (let dp = load_DataProvider E input (mipmap f) (\<not> dxt1 f);
          num = NumberOfParts dp;
          type = encode_type f (dp_Alpha dp);
          has_bda = (alpha f \<noteq> None \<and> dp_Alpha dp \<and> \<not> rgba f)
      in [New_DataProvider input (mipmap f) (\<not> dxt1 f),
          New_TaskDispatch (CPUCores E),
          New_BlockData BD (Some output) (dp_Size dp) (mipmap f) type]
         @ (if has_bda
            then [New_BlockData BDA (alpha f) (dp_Size dp) (mipmap f) type]
            else [])
         @ dispatch_loop 0 num dp type has_bda (dither f)
         @ [Sync]
         @ (if stats f then [Decode BD, CalcMSE3, Printf_stats] else []))"

subsection \<open>main\<close>

text \<open>The exit code and the trace of a run.\<close>

definition main :: "env \<Rightarrow> cmdline \<Rightarrow> int \<times> event list" where
  "main E cl =
     (if argc cl < 3 then (1, [Usage])
      else
        case getopt_loop (getopts cl) flags0 of
          None \<Rightarrow> (1, [Usage])
        | Some f0 \<Rightarrow>
            let msg = dither_message f0;
                f = disable_dither f0
            in
              if benchmark f then
                (if int (length (operands cl)) < 1 then (1, msg @ [Usage])
                 else
                   let input = operands cl ! 0
                   in if viewMode f
                      then (0, msg @ benchmark_decode input)
                      else (0, msg @ benchmark_encode E f input))
              else
                (if int (length (operands cl)) < 2 then (1, msg @ [Usage])
                 else
                   let input = operands cl ! 0;
                       output = operands cl ! 1
                   in if viewMode f
                      then (0, msg @ [New_BlockData_file BD input, Decode BD, Write output])
                      else (0, msg @ encode E f input output)))"

subsection \<open>Reading a trace\<close>

text \<open>The calls that were queued on the dispatcher, and all encoding calls.\<close>

fun queued :: "event list \<Rightarrow> call list" where
  "queued [] = []"
| "queued (Queue c # es) = c # queued es"
| "queued (e # es) = queued es"

fun calls :: "event list \<Rightarrow> call list" where
  "calls [] = []"
| "calls (Queue c # es) = c # calls es"
| "calls (Run c # es) = c # calls es"
| "calls (e # es) = calls es"

text \<open>The formats of the block buffers that were created for encoding.\<close>

fun block_types :: "event list \<Rightarrow> Type list" where
  "block_types [] = []"
| "block_types (New_BlockData b fn sz mm t # es) = t # block_types es"
| "block_types (e # es) = block_types es"

text \<open>The buffers that were created for encoding.\<close>

fun buffers :: "event list \<Rightarrow> bdref list" where
  "buffers [] = []"
| "buffers (New_BlockData b fn sz mm t # es) = b # buffers es"
| "buffers (e # es) = buffers es"

fun call_buffer :: "call \<Rightarrow> bdref" where
  "call_buffer (Process b s n off w ch d) = b"
| "call_buffer (ProcessRGBA b s n off w) = b"

fun call_blocks :: "call \<Rightarrow> uint" where
  "call_blocks (Process b s n off w ch d) = n"
| "call_blocks (ProcessRGBA b s n off w) = n"

text \<open>The dither argument of a call; \<^verbatim>\<open>ProcessRGBA\<close> has none.\<close>

fun call_dither :: "call \<Rightarrow> bool option" where
  "call_dither (Process b s n off w ch d) = Some d"
| "call_dither (ProcessRGBA b s n off w) = None"

definition is_etc2 :: "Type \<Rightarrow> bool" where
  "is_etc2 t = (t = Etc2_RGB \<or> t = Etc2_RGBA)"

subsection \<open>Vocabulary of the properties\<close>

text \<open>
  The decision table of the specification, row by row: from the \<^verbatim>\<open>etc2\<close>, \<^verbatim>\<open>rgba\<close>
  and \<^verbatim>\<open>dxt1\<close> flags and the presence of an alpha channel in the source to the format
  tag. It is written from the specification's words, to be compared with
  \<^const>\<open>encode_type\<close> and \<^const>\<open>benchmark_type\<close>.
\<close>

definition format_table :: "bool \<Rightarrow> bool \<Rightarrow> bool \<Rightarrow> bool \<Rightarrow> Type \<Rightarrow> bool" where
  "format_table e r d sourceHasAlpha t \<longleftrightarrow>
     (\<not> e \<and> \<not> d \<longrightarrow> t = Etc1)
   \<and> (e \<and> r \<and> sourceHasAlpha \<longrightarrow> t = Etc2_RGBA)
   \<and> (e \<and> r \<and> \<not> sourceHasAlpha \<longrightarrow> t = Etc2_RGB)
   \<and> (e \<and> \<not> r \<longrightarrow> t = Etc2_RGB)
   \<and> (d \<and> \<not> e \<longrightarrow> t = Dxt1)"

text \<open>
  The runs that reach the encoding path (the last \<^verbatim>\<open>else\<close>, line 213): at least three
  arguments, no unknown option, neither \<^verbatim>\<open>-b\<close> nor \<^verbatim>\<open>-v\<close>, two operands. The flags
  are those in force after line 124.
\<close>

definition reaches_encoding :: "cmdline \<Rightarrow> flags \<Rightarrow> bool" where
  "reaches_encoding cl f \<longleftrightarrow>
     3 \<le> argc cl
   \<and> map_option disable_dither (getopt_loop (getopts cl) flags0) = Some f
   \<and> \<not> benchmark f \<and> \<not> viewMode f
   \<and> 2 \<le> length (operands cl)"

text \<open>The partitioner of such a run (line 215).\<close>

definition encode_dp :: "env \<Rightarrow> cmdline \<Rightarrow> flags \<Rightarrow> DataProvider" where
  "encode_dp E cl f = load_DataProvider E (operands cl ! 0) (mipmap f) (\<not> dxt1 f)"

subsection \<open>A small run\<close>

text \<open>
  An image of 8 by 32 pixels that the partitioner hands out in two parts of four block
  rows each, with or without an alpha channel; the theorems below are run on it.
\<close>

definition example_part :: "nat \<Rightarrow> DataPart" where
  "example_part k = \<lparr> src = 128 * k, width = 8, lines = 4, offset = 8 * of_nat k \<rparr>"

definition example_dp :: "bool \<Rightarrow> DataProvider" where
  "example_dp a = \<lparr> NumberOfParts = 2, NextPart = example_part, dp_Alpha = a,
                     dp_Size = \<lparr> x = 8, y = 32 \<rparr> \<rparr>"

definition example_env :: "bool \<Rightarrow> env" where
  "example_env a = \<lparr> CPUCores = 4,
                      load_Bitmap = (\<lambda>fn bgr. \<lparr> bmp_Data = 0, bmp_Size = \<lparr> x = 8, y = 32 \<rparr> \<rparr>),
                      load_DataProvider = (\<lambda>fn mm bgr. example_dp a) \<rparr>"


section \<open>Properties\<close>

subsection \<open>Option parsing\<close>

lemma getopt_case_rgba_etc2:
  "getopt_case c f = Some f' \<Longrightarrow> (rgba f \<longrightarrow> etc2 f) \<Longrightarrow> (rgba f' \<longrightarrow> etc2 f')"
  by (cases c) auto

lemma getopt_loop_rgba_etc2:
  "getopt_loop cs f = Some f' \<Longrightarrow> (rgba f \<longrightarrow> etc2 f) \<Longrightarrow> (rgba f' \<longrightarrow> etc2 f')"
proof (induction cs arbitrary: f)
  case Nil
  then show ?case by simp
next
  case (Cons c cs)
  then obtain g where g: "getopt_case c f = Some g" and l: "getopt_loop cs g = Some f'"
    by (auto split: option.splits)
  from getopt_case_rgba_etc2 [OF g] Cons.prems(2) have "rgba g \<longrightarrow> etc2 g" by blast
  with Cons.IH [OF l] show ?case by blast
qed

lemma getopt_case_rgba_mono:
  "getopt_case c f = Some f' \<Longrightarrow> rgba f \<Longrightarrow> rgba f'"
  by (cases c) auto

lemma getopt_loop_rgba_mono:
  "getopt_loop cs f = Some f' \<Longrightarrow> rgba f \<Longrightarrow> rgba f'"
  by (induction cs arbitrary: f) (auto split: option.splits dest: getopt_case_rgba_mono)

lemma getopt_loop_OptRgba:
  "OptRgba \<in> set cs \<Longrightarrow> getopt_loop cs f = Some f' \<Longrightarrow> rgba f'"
proof (induction cs arbitrary: f)
  case Nil
  then show ?case by simp
next
  case (Cons c cs)
  then obtain g where g: "getopt_case c f = Some g" and l: "getopt_loop cs g = Some f'"
    by (auto split: option.splits)
  show ?case
  proof (cases "c = OptRgba")
    case True
    with g have "rgba g" by auto
    with l show ?thesis by (rule getopt_loop_rgba_mono)
  next
    case False
    with Cons.prems(1) have "OptRgba \<in> set cs" by simp
    from Cons.IH [OF this l] show ?thesis .
  qed
qed

lemma getopt_loop_rgba_only_if:
  "getopt_loop cs f = Some f' \<Longrightarrow> rgba f' \<Longrightarrow> rgba f \<or> OptRgba \<in> set cs"
proof (induction cs arbitrary: f)
  case Nil
  then show ?case by simp
next
  case (Cons c cs)
  then obtain g where g: "getopt_case c f = Some g" and l: "getopt_loop cs g = Some f'"
    by (auto split: option.splits)
  from Cons.IH [OF l Cons.prems(2)] have "rgba g \<or> OptRgba \<in> set cs" .
  moreover have "rgba g \<Longrightarrow> rgba f \<or> c = OptRgba" using g by (cases c) auto
  ultimately show ?case by auto
qed

lemma dispatch_loop_concat:
  "dispatch_loop i num dp t h d = concat (map (\<lambda>k. queue_part t h d (NextPart dp k)) [i..<num])"
proof (induction i num dp t h d rule: dispatch_loop.induct)
  case (1 i num dp t h d)
  show ?case
  proof (cases "i < num")
    case True
    with 1 show ?thesis
      by (subst dispatch_loop.simps) (simp add: upt_conv_Cons)
  next
    case False
    then show ?thesis by (subst dispatch_loop.simps) simp
  qed
qed

lemma queued_append: "queued (xs @ ys) = queued xs @ queued ys"
  by (induction xs rule: queued.induct) auto

lemma calls_append: "calls (xs @ ys) = calls xs @ calls ys"
  by (induction xs rule: calls.induct) auto

lemma block_types_append: "block_types (xs @ ys) = block_types xs @ block_types ys"
  by (induction xs rule: block_types.induct) auto

lemma buffers_append: "buffers (xs @ ys) = buffers xs @ buffers ys"
  by (induction xs rule: buffers.induct) auto

lemma queued_concat: "queued (concat xss) = concat (map queued xss)"
  by (induction xss) (auto simp: queued_append)

lemma calls_concat: "calls (concat xss) = concat (map calls xss)"
  by (induction xss) (auto simp: calls_append)

lemma block_types_concat: "block_types (concat xss) = concat (map block_types xss)"
  by (induction xss) (auto simp: block_types_append)

lemma buffers_concat: "buffers (concat xss) = concat (map buffers xss)"
  by (induction xss) (auto simp: buffers_append)

subsection \<open>The paths of main\<close>

lemma disable_dither_simps [simp]:
  "benchmark (disable_dither f) = benchmark f"
  "viewMode (disable_dither f) = viewMode f"
  "etc2 (disable_dither f) = etc2 f"
  "rgba (disable_dither f) = rgba f"
  "dxt1 (disable_dither f) = dxt1 f"
  "alpha (disable_dither f) = alpha f"
  "stats (disable_dither f) = stats f"
  "mipmap (disable_dither f) = mipmap f"
  "dither (disable_dither f) = (dither f \<and> \<not> etc2 f)"
  by (auto simp: disable_dither_def)

lemma main_cases [case_names args unknown operand bench_decode bench_encode view encode]:
  obtains
    "main E cl = (1, [Usage])" "argc cl < 3"
  | "main E cl = (1, [Usage])" "3 \<le> argc cl" "getopt_loop (getopts cl) flags0 = None"
  | f0 where "getopt_loop (getopts cl) flags0 = Some f0" "3 \<le> argc cl"
      "main E cl = (1, dither_message f0 @ [Usage])"
      "length (operands cl) < (if benchmark f0 then 1 else 2)"
  | f0 where "getopt_loop (getopts cl) flags0 = Some f0" "3 \<le> argc cl"
      "benchmark f0" "viewMode f0" "1 \<le> length (operands cl)"
      "main E cl = (0, dither_message f0 @ benchmark_decode (operands cl ! 0))"
  | f0 where "getopt_loop (getopts cl) flags0 = Some f0" "3 \<le> argc cl"
      "benchmark f0" "\<not> viewMode f0" "1 \<le> length (operands cl)"
      "main E cl = (0, dither_message f0 @ benchmark_encode E (disable_dither f0) (operands cl ! 0))"
  | f0 where "getopt_loop (getopts cl) flags0 = Some f0" "3 \<le> argc cl"
      "\<not> benchmark f0" "viewMode f0" "2 \<le> length (operands cl)"
      "main E cl = (0, dither_message f0 @
         [New_BlockData_file BD (operands cl ! 0), Decode BD, Write (operands cl ! 1)])"
  | f0 where "getopt_loop (getopts cl) flags0 = Some f0" "3 \<le> argc cl"
      "\<not> benchmark f0" "\<not> viewMode f0" "2 \<le> length (operands cl)"
      "main E cl = (0, dither_message f0 @
         encode E (disable_dither f0) (operands cl ! 0) (operands cl ! 1))"
proof (cases "argc cl < 3")
  case True
  then have "main E cl = (1, [Usage])" by (simp add: main_def)
  with True that(1) show ?thesis by blast
next
  case big: False
  show ?thesis
  proof (cases "getopt_loop (getopts cl) flags0")
    case None
    with big have "main E cl = (1, [Usage])" by (simp add: main_def)
    with big None that(2) show ?thesis by simp
  next
    case (Some f0)
    show ?thesis
    proof (cases "benchmark f0")
      case b: True
      show ?thesis
      proof (cases "length (operands cl) < 1")
        case True
        with big Some b have "main E cl = (1, dither_message f0 @ [Usage])"
          by (simp add: main_def Let_def)
        with that(3) [of f0] Some big b True show ?thesis by simp
      next
        case False
        with big Some b that(4) [of f0] that(5) [of f0] show ?thesis
          by (cases "viewMode f0") (simp_all add: main_def Let_def)
      qed
    next
      case b: False
      show ?thesis
      proof (cases "length (operands cl) < 2")
        case True
        with big Some b have "main E cl = (1, dither_message f0 @ [Usage])"
          by (simp add: main_def Let_def)
        with that(3) [of f0] Some big b True show ?thesis by simp
      next
        case False
        with big Some b that(6) [of f0] that(7) [of f0] show ?thesis
          by (cases "viewMode f0") (simp_all add: main_def Let_def)
      qed
    qed
  qed
qed

subsection \<open>What each path leaves in the trace\<close>

lemma dither_message_trace [simp]:
  "calls (dither_message f) = []" "queued (dither_message f) = []"
  "block_types (dither_message f) = []" "buffers (dither_message f) = []"
  by (simp_all add: dither_message_def)

lemma benchmark_decode_trace [simp]:
  "calls (benchmark_decode i) = []" "queued (benchmark_decode i) = []"
  "block_types (benchmark_decode i) = []" "buffers (benchmark_decode i) = []"
proof -
  have a: "calls (replicate n (Decode b)) = []" for n b by (induction n) auto
  have b: "queued (replicate n (Decode b)) = []" for n b by (induction n) auto
  have c: "block_types (replicate n (Decode b)) = []" for n b by (induction n) auto
  have d: "buffers (replicate n (Decode b)) = []" for n b by (induction n) auto
  show "calls (benchmark_decode i) = []" "queued (benchmark_decode i) = []"
    "block_types (benchmark_decode i) = []" "buffers (benchmark_decode i) = []"
    by (simp_all add: benchmark_decode_def calls_append queued_append block_types_append
        buffers_append a b c d)
qed

lemma queued_queue_part:
  "queued (queue_part t h d p) =
     (if t = Etc2_RGBA
      then [ProcessRGBA BD (src p) (width p div 4 * lines p) (offset p) (width p)]
      else Process BD (src p) (width p div 4 * lines p) (offset p) (width p) RGB d
           # (if h then [Process BDA (src p) (width p div 4 * lines p) (offset p) (width p)
                           Alpha False]
              else []))"
  by (simp add: queue_part_def)

lemma calls_queue_part: "calls (queue_part t h d p) = queued (queue_part t h d p)"
  by (simp add: queue_part_def)

lemma queue_part_no_alloc [simp]:
  "block_types (queue_part t h d p) = []" "buffers (queue_part t h d p) = []"
  by (simp_all add: queue_part_def)

lemma queued_dispatch_loop:
  "queued (dispatch_loop i num dp t h d) =
     concat (map (\<lambda>k. queued (queue_part t h d (NextPart dp k))) [i..<num])"
  by (simp add: dispatch_loop_concat queued_concat comp_def)

lemma calls_dispatch_loop:
  "calls (dispatch_loop i num dp t h d) = queued (dispatch_loop i num dp t h d)"
  by (simp add: dispatch_loop_concat queued_concat calls_concat comp_def calls_queue_part)

lemma dispatch_loop_no_alloc [simp]:
  "block_types (dispatch_loop i num dp t h d) = []" "buffers (dispatch_loop i num dp t h d) = []"
  by (simp_all add: dispatch_loop_concat block_types_concat buffers_concat comp_def)

lemma queued_encode:
  "queued (encode E f i out) =
     (let dp = load_DataProvider E i (mipmap f) (\<not> dxt1 f)
      in queued (dispatch_loop 0 (NumberOfParts dp) dp (encode_type f (dp_Alpha dp))
           (alpha f \<noteq> None \<and> dp_Alpha dp \<and> \<not> rgba f) (dither f)))"
  by (simp add: encode_def Let_def queued_append)

lemma calls_encode: "calls (encode E f i out) = queued (encode E f i out)"
  by (simp add: encode_def Let_def queued_append calls_append calls_dispatch_loop)

lemma block_types_encode:
  "block_types (encode E f i out) =
     (let dp = load_DataProvider E i (mipmap f) (\<not> dxt1 f);
          t = encode_type f (dp_Alpha dp)
      in if alpha f \<noteq> None \<and> dp_Alpha dp \<and> \<not> rgba f then [t, t] else [t])"
  by (simp add: encode_def Let_def block_types_append)

lemma buffers_encode:
  "buffers (encode E f i out) =
     (let dp = load_DataProvider E i (mipmap f) (\<not> dxt1 f)
      in if alpha f \<noteq> None \<and> dp_Alpha dp \<and> \<not> rgba f then [BD, BDA] else [BD])"
  by (simp add: encode_def Let_def buffers_append)

lemma queued_benchmark_encode [simp]: "queued (benchmark_encode E f i) = []"
proof -
  have "queued (concat (replicate n (benchmark_task f b))) = []" for n b
    by (induction n) (auto simp: benchmark_task_def Let_def queued_append)
  then show ?thesis by (simp add: benchmark_encode_def Let_def queued_append)
qed

lemma set_calls_benchmark_encode:
  "set (calls (benchmark_encode E f i)) =
     (let bmp = load_Bitmap E i (\<not> dxt1 f); size = bmp_Size bmp
      in {if rgba f
          then ProcessRGBA BD (bmp_Data bmp) (sdiv32 (x size * y size) 16) 0 (x size)
          else Process BD (bmp_Data bmp) (sdiv32 (x size * y size) 16) 0 (x size)
                 (if alpha f \<noteq> None then Alpha else RGB) (dither f)})"
proof -
  have "calls (concat (replicate n (benchmark_task f b))) =
          replicate n (if rgba f
            then ProcessRGBA BD (bmp_Data b) (sdiv32 (x (bmp_Size b) * y (bmp_Size b)) 16) 0
                   (x (bmp_Size b))
            else Process BD (bmp_Data b) (sdiv32 (x (bmp_Size b) * y (bmp_Size b)) 16) 0
                   (x (bmp_Size b)) (if alpha f \<noteq> None then Alpha else RGB) (dither f))"
    for n b
    by (induction n) (auto simp: benchmark_task_def Let_def calls_append)
  then show ?thesis by (simp add: benchmark_encode_def Let_def calls_append)
qed

lemma block_types_benchmark_encode:
  "block_types (benchmark_encode E f i) = replicate 9 (benchmark_type f)"
proof -
  have "block_types (concat (replicate n (benchmark_task f b))) = replicate n (benchmark_type f)"
    for n b
    by (induction n) (auto simp: benchmark_task_def Let_def block_types_append)
  then show ?thesis by (simp add: benchmark_encode_def Let_def block_types_append)
qed

lemma buffers_benchmark_encode:
  "buffers (benchmark_encode E f i) = replicate 9 BD"
proof -
  have "buffers (concat (replicate n (benchmark_task f b))) = replicate n BD"
    for n b
    by (induction n) (auto simp: benchmark_task_def Let_def buffers_append)
  then show ?thesis by (simp add: benchmark_encode_def Let_def buffers_append)
qed

lemma is_etc2_encode_type [simp]: "is_etc2 (encode_type f a) = etc2 f"
  by (simp add: is_etc2_def encode_type_def)

lemma is_etc2_benchmark_type: "is_etc2 (benchmark_type f) = (rgba f \<or> etc2 f)"
  by (simp add: is_etc2_def benchmark_type_def)

lemma parsed_rgba_etc2:
  "getopt_loop cs flags0 = Some f \<Longrightarrow> rgba f \<Longrightarrow> etc2 f"
  using getopt_loop_rgba_etc2 [of cs flags0 f] by (simp add: flags0_def)

lemma dispatch_loop_2:
  "dispatch_loop 0 2 dp t h d = queue_part t h d (NextPart dp 0) @ queue_part t h d (NextPart dp 1)"
  by (simp add: dispatch_loop_concat numeral_2_eq_2)

lemmas example_simps =
  main_def flags0_def dither_message_def disable_dither_def encode_def encode_type_def
  benchmark_encode_def benchmark_task_def benchmark_type_def benchmark_decode_def
  queue_part_def example_env_def example_dp_def example_part_def dispatch_loop_2 Let_def

lemma queued_encode_cases:
  assumes "c \<in> set (queued (encode E f i out))"
  obtains p :: DataPart where "encode_type f (dp_Alpha (load_DataProvider E i (mipmap f) (\<not> dxt1 f))) = Etc2_RGBA"
      "c = ProcessRGBA BD (src p) (width p div 4 * lines p) (offset p) (width p)"
  | p :: DataPart where "c = Process BD (src p) (width p div 4 * lines p) (offset p) (width p) RGB (dither f)"
  | p :: DataPart where "alpha f \<noteq> None" "dp_Alpha (load_DataProvider E i (mipmap f) (\<not> dxt1 f))" "\<not> rgba f"
      "c = Process BDA (src p) (width p div 4 * lines p) (offset p) (width p) Alpha False"
proof -
  let ?dp = "load_DataProvider E i (mipmap f) (\<not> dxt1 f)"
  from assms obtain k where
    "c \<in> set (queued (queue_part (encode_type f (dp_Alpha ?dp))
            (alpha f \<noteq> None \<and> dp_Alpha ?dp \<and> \<not> rgba f) (dither f) (NextPart ?dp k)))"
    by (auto simp: queued_encode Let_def queued_dispatch_loop)
  then show ?thesis
    using that(1) [of "NextPart ?dp k"] that(2) [of "NextPart ?dp k"] that(3) [of "NextPart ?dp k"]
    by (auto simp: queued_queue_part split: if_splits)
qed

lemma calls_benchmark_encode_cases:
  assumes "c \<in> set (calls (benchmark_encode E f i))"
  obtains s n off w where "rgba f" "c = ProcessRGBA BD s n off w"
  | s n off w ch where "\<not> rgba f" "c = Process BD s n off w ch (dither f)"
  using assms by (auto simp: set_calls_benchmark_encode Let_def split: if_splits)

lemma reaches_encoding_main:
  assumes "reaches_encoding cl f"
  obtains f0 where "getopt_loop (getopts cl) flags0 = Some f0" "f = disable_dither f0"
    "main E cl = (0, dither_message f0 @ encode E f (operands cl ! 0) (operands cl ! 1))"
proof -
  from assms obtain f0 where p: "getopt_loop (getopts cl) flags0 = Some f0"
    and f: "f = disable_dither f0"
    by (auto simp: reaches_encoding_def)
  from assms f have c: "3 \<le> argc cl" "\<not> benchmark f0" "\<not> viewMode f0" "2 \<le> length (operands cl)"
    by (simp_all add: reaches_encoding_def)
  have "main E cl = (0, dither_message f0 @ encode E f (operands cl ! 0) (operands cl ! 1))"
    using p c f by (cases E cl rule: main_cases) auto
  with p f that show ?thesis by blast
qed

lemma dispatch_loop_events:
  "e \<in> set (dispatch_loop i num dp t h d) \<Longrightarrow> \<exists>c. e = Queue c"
  by (auto simp: dispatch_loop_concat queue_part_def split: if_splits)

lemma length_queued_dispatch_loop:
  "length (queued (dispatch_loop i num dp t h d)) =
     (num - i) * (if t \<noteq> Etc2_RGBA \<and> h then 2 else 1)"
proof -
  have "length (queued (queue_part t h d p)) = (if t \<noteq> Etc2_RGBA \<and> h then 2 else 1)" for p
    by (simp add: queued_queue_part)
  then show ?thesis
    by (simp add: queued_dispatch_loop length_concat comp_def sum_list_triv)
qed

lemma encode_type_RGBA: "encode_type f a = Etc2_RGBA \<longleftrightarrow> etc2 f \<and> rgba f \<and> a"
  by (simp add: encode_type_def)

lemma encode_split:
  "encode E f i out =
     (let dp = load_DataProvider E i (mipmap f) (\<not> dxt1 f);
          t = encode_type f (dp_Alpha dp);
          h = (alpha f \<noteq> None \<and> dp_Alpha dp \<and> \<not> rgba f)
      in ([New_DataProvider i (mipmap f) (\<not> dxt1 f), New_TaskDispatch (CPUCores E),
           New_BlockData BD (Some out) (dp_Size dp) (mipmap f) t]
          @ (if h then [New_BlockData BDA (alpha f) (dp_Size dp) (mipmap f) t] else [])
          @ dispatch_loop 0 (NumberOfParts dp) dp t h (dither f))
         @ [Sync]
         @ (if stats f then [Decode BD, CalcMSE3, Printf_stats] else []))"
  by (simp add: encode_def Let_def)

lemmas example_simps2 = example_simps reaches_encoding_def encode_dp_def

lemma unat_block_count:
  fixes w l :: uint
  assumes "4 dvd unat w" and "unat w div 4 * unat l < 2 ^ 32"
  shows "unat (w div 4 * l) = unat w * (4 * unat l) div 16"
proof -
  have d: "unat (w div 4) = unat w div 4" by (simp add: unat_div)
  have "unat (w div 4 * l) = unat (w div 4) * unat l mod 2 ^ 32"
    by (simp add: unat_word_ariths)
  also have "\<dots> = (unat w div 4 * unat l) mod 2 ^ 32" by (simp only: d)
  also have "\<dots> = unat w div 4 * unat l" using assms(2) by simp
  also from assms(1) obtain m where m: "unat w = 4 * m" by (auto simp: dvd_def)
  have "unat w div 4 * unat l = unat w * (4 * unat l) div 16" unfolding m by simp
  finally show ?thesis .
qed

lemma getopt_case_None: "getopt_case c f = None \<longleftrightarrow> c = Opt_unknown"
  by (cases c) auto

lemma getopt_loop_None: "getopt_loop cs f = None \<longleftrightarrow> Opt_unknown \<in> set cs"
proof (induction cs arbitrary: f)
  case Nil
  then show ?case by simp
next
  case (Cons c cs)
  show ?case
  proof (cases "getopt_case c f")
    case None
    then show ?thesis using getopt_case_None [of c f] by auto
  next
    case (Some g)
    then have "c \<noteq> Opt_unknown" using getopt_case_None [of c f] by auto
    with Some Cons.IH [of g] show ?thesis by auto
  qed
qed

lemma main_fails_iff:
  "fst (main E cl) \<noteq> 0 \<longleftrightarrow>
     argc cl < 3
   \<or> Opt_unknown \<in> set (getopts cl)
   \<or> (\<exists>f0. getopt_loop (getopts cl) flags0 = Some f0
          \<and> length (operands cl) < (if benchmark f0 then 1 else 2))"
proof -
  have u: "Opt_unknown \<in> set (getopts cl) \<longleftrightarrow> getopt_loop (getopts cl) flags0 = None"
    by (simp add: getopt_loop_None)
  show ?thesis
    unfolding u by (cases E cl rule: main_cases) auto
qed

subsection \<open>The claims\<close>

text \<open>
  C1, as claimed, fails in the benchmark path. With \<^verbatim>\<open>-b --rgba\<close> on a source that has
  no alpha channel, each of the nine buffers of the benchmark loop is created as
  \<^verbatim>\<open>Etc2_RGBA\<close> (line 185 tests \<^verbatim>\<open>rgba\<close> alone), where the table's row
  \<^verbatim>\<open>{etc2, rgba, no alpha}\<close> asks for \<^verbatim>\<open>Etc2_RGB\<close>.
\<close>

theorem benchmark_format_counterexample:
  "getopt_loop [Opt_b, OptRgba] flags0
     = Some (flags0 \<lparr> benchmark := True, rgba := True, etc2 := True \<rparr>)
   \<and> \<not> dp_Alpha (load_DataProvider (example_env False) ''in.png'' False True)
   \<and> main (example_env False) \<lparr> argc = 4, getopts = [Opt_b, OptRgba], operands = [''in.png''] \<rparr>
      = (0, [New_Bitmap ''in.png'' True, Printf_load_time]
            @ concat (replicate 9
                [New_BlockData BD None \<lparr> x = 8, y = 32 \<rparr> False Etc2_RGBA,
                 Run (ProcessRGBA BD 0 (sdiv32 (8 * 32) 16) 0 8)])
            @ [Printf_median_compress])
   \<and> \<not> format_table True True False False Etc2_RGBA"
  by (simp add: example_simps format_table_def)

text \<open>
  C1, amended. Every block buffer that a run creates for encoding has the format tag of
  the decision table: in the encoding path with the alpha presence that the partitioner
  reports, in the benchmark path with the alpha presence taken as true, since that path
  does not consult the source.
\<close>

theorem format_selection:
  assumes "getopt_loop (getopts cl) flags0 = Some f"
    and "t \<in> set (block_types (snd (main E cl)))"
  shows "if benchmark f
         then format_table (etc2 f) (rgba f) (dxt1 f) True t
         else format_table (etc2 f) (rgba f) (dxt1 f)
                (dp_Alpha (load_DataProvider E (operands cl ! 0) (mipmap f) (\<not> dxt1 f))) t"
proof (cases E cl rule: main_cases)
  case (bench_encode f0)
  with assms(1) have f: "f0 = f" by simp
  from bench_encode(6) assms(2) have "t = benchmark_type (disable_dither f)"
    by (simp add: f block_types_append block_types_benchmark_encode)
  with parsed_rgba_etc2 [OF assms(1)] bench_encode(3) show ?thesis
    by (auto simp: f format_table_def benchmark_type_def)
next
  case (encode f0)
  with assms(1) have f: "f0 = f" by simp
  from encode(6) assms(2)
  have "t = encode_type (disable_dither f)
              (dp_Alpha (load_DataProvider E (operands cl ! 0) (mipmap f) (\<not> dxt1 f)))"
    by (auto simp: f block_types_append block_types_encode Let_def split: if_splits)
  with encode(3) show ?thesis
    by (auto simp: f format_table_def encode_type_def)
qed (use assms in \<open>auto simp: block_types_append\<close>)

theorem format_selection_witness:
  "format_table True True False True Etc2_RGBA \<and> format_table True True False False Etc2_RGB"
proof -
  let ?cl = "\<lparr> argc = 4, getopts = [OptRgba], operands = [''in.png'', ''out.pvr''] \<rparr>"
  let ?f = "flags0 \<lparr> rgba := True, etc2 := True \<rparr>"
  have p: "getopt_loop (getopts ?cl) flags0 = Some ?f" by (simp add: flags0_def)
  have a: "Etc2_RGBA \<in> set (block_types (snd (main (example_env True) ?cl)))"
    by (simp add: example_simps)
  have b: "Etc2_RGB \<in> set (block_types (snd (main (example_env False) ?cl)))"
    by (simp add: example_simps)
  from format_selection [OF p a] format_selection [OF p b] show ?thesis
    by (simp add: example_simps)
qed

text \<open>
  C2. In a run that creates a buffer of an ETC2 format, no encoding call, queued or
  made directly by the benchmark loop, has a dither argument of \<^verbatim>\<open>true\<close>, whatever the
  options were.
\<close>

theorem etc2_never_dithers:
  assumes "main E cl = (code, tr)"
    and "t \<in> set (block_types tr)" and "is_etc2 t"
    and "c \<in> set (calls tr)"
  shows "call_dither c \<noteq> Some True"
proof (cases E cl rule: main_cases)
  case (bench_encode f0)
  let ?f = "disable_dither f0"
  from bench_encode assms(1) have tr: "tr = dither_message f0 @ benchmark_encode E ?f (operands cl ! 0)"
    by simp
  with assms(2) have "t = benchmark_type ?f"
    by (simp add: block_types_append block_types_benchmark_encode)
  with assms(3) have "rgba f0 \<or> etc2 f0" by (simp add: is_etc2_benchmark_type)
  with parsed_rgba_etc2 [OF bench_encode(1)] have "etc2 f0" by blast
  then have nd: "\<not> dither ?f" by simp
  from tr assms(4) have "c \<in> set (calls (benchmark_encode E ?f (operands cl ! 0)))"
    by (simp add: calls_append)
  then show ?thesis using nd by (cases rule: calls_benchmark_encode_cases) auto
next
  case (encode f0)
  let ?f = "disable_dither f0"
  from encode assms(1) have tr: "tr = dither_message f0 @ encode E ?f (operands cl ! 0) (operands cl ! 1)"
    by simp
  with assms(2) have "t = encode_type ?f (dp_Alpha (load_DataProvider E (operands cl ! 0) (mipmap ?f) (\<not> dxt1 ?f)))"
    by (auto simp: block_types_append block_types_encode Let_def split: if_splits)
  with assms(3) have "etc2 f0" by simp
  then have nd: "\<not> dither ?f" by simp
  from tr assms(4) have "c \<in> set (queued (encode E ?f (operands cl ! 0) (operands cl ! 1)))"
    by (simp add: calls_append calls_encode)
  then show ?thesis using nd by (cases rule: queued_encode_cases) auto
qed (use assms in \<open>auto simp: calls_append\<close>)

theorem etc2_never_dithers_witness:
  "Etc2_RGB \<in> set (block_types (snd (main (example_env True)
      \<lparr> argc = 5, getopts = [Opt_d, OptEtc2], operands = [''in.png'', ''out.pvr''] \<rparr>)))
   \<and> is_etc2 Etc2_RGB
   \<and> calls (snd (main (example_env True)
      \<lparr> argc = 5, getopts = [Opt_d, OptEtc2], operands = [''in.png'', ''out.pvr''] \<rparr>))
     = [Process BD 0 8 0 8 RGB False, Process BD 128 8 8 8 RGB False]
   \<and> call_dither (Process BD 0 8 0 8 RGB False) \<noteq> Some True"
proof -
  let ?cl = "\<lparr> argc = 5, getopts = [Opt_d, OptEtc2], operands = [''in.png'', ''out.pvr''] \<rparr>"
  let ?tr = "snd (main (example_env True) ?cl)"
  have m: "main (example_env True) ?cl = (0, ?tr)" by (simp add: example_simps)
  have t: "Etc2_RGB \<in> set (block_types ?tr)" by (simp add: example_simps)
  have e: "is_etc2 Etc2_RGB" by (simp add: is_etc2_def)
  have q: "calls ?tr = [Process BD 0 8 0 8 RGB False, Process BD 128 8 8 8 RGB False]"
    by (simp add: example_simps)
  then have c: "Process BD 0 8 0 8 RGB False \<in> set (calls ?tr)" by simp
  from etc2_never_dithers [OF m t e c] t e q show ?thesis by simp
qed

text \<open>
  C3. In the encoding path the alpha buffer \<^verbatim>\<open>bda\<close> is created exactly when \<^verbatim>\<open>-a\<close> was
  given, the source has an alpha channel and \<^verbatim>\<open>--rgba\<close> was not given. When it is
  created there are two buffers, and each part queues one colour unit and one alpha
  unit, twice the number of parts in all. With \<^verbatim>\<open>--rgba\<close> there is the colour buffer
  alone and no unit is queued on \<^verbatim>\<open>bda\<close>.
\<close>

theorem separate_alpha_buffer:
  assumes "reaches_encoding cl f"
  shows "(BDA \<in> set (buffers (snd (main E cl)))
            \<longleftrightarrow> alpha f \<noteq> None \<and> dp_Alpha (encode_dp E cl f) \<and> \<not> rgba f)
       \<and> (BDA \<in> set (buffers (snd (main E cl))) \<longrightarrow>
            buffers (snd (main E cl)) = [BD, BDA]
          \<and> queued (snd (main E cl)) =
              concat (map (\<lambda>k. let p = NextPart (encode_dp E cl f) k in
                     [Process BD (src p) (width p div 4 * lines p) (offset p) (width p) RGB (dither f),
                      Process BDA (src p) (width p div 4 * lines p) (offset p) (width p) Alpha False])
                [0..<NumberOfParts (encode_dp E cl f)])
          \<and> length (queued (snd (main E cl))) = 2 * NumberOfParts (encode_dp E cl f))
       \<and> (rgba f \<longrightarrow> buffers (snd (main E cl)) = [BD]
             \<and> BDA \<notin> call_buffer ` set (queued (snd (main E cl))))"
proof -
  from assms obtain f0 where m:
    "main E cl = (0, dither_message f0 @ encode E f (operands cl ! 0) (operands cl ! 1))"
    by (rule reaches_encoding_main)
  let ?dp = "encode_dp E cl f"
  let ?t = "encode_type f (dp_Alpha ?dp)"
  let ?h = "alpha f \<noteq> None \<and> dp_Alpha ?dp \<and> \<not> rgba f"
  have bufs: "buffers (snd (main E cl)) = (if ?h then [BD, BDA] else [BD])"
    by (simp add: m buffers_append buffers_encode Let_def encode_dp_def)
  have q: "queued (snd (main E cl)) =
      concat (map (\<lambda>k. queued (queue_part ?t ?h (dither f) (NextPart ?dp k))) [0..<NumberOfParts ?dp])"
    by (simp add: m queued_append queued_encode Let_def encode_dp_def queued_dispatch_loop)
  have len: "length (queued (snd (main E cl))) = NumberOfParts ?dp * (if ?t \<noteq> Etc2_RGBA \<and> ?h then 2 else 1)"
    using length_queued_dispatch_loop [of 0 "NumberOfParts ?dp" ?dp ?t ?h "dither f"]
    by (simp add: m queued_append queued_encode Let_def encode_dp_def)
  have nt: "?h \<Longrightarrow> ?t \<noteq> Etc2_RGBA" by (simp add: encode_type_RGBA)
  have 1: "BDA \<in> set (buffers (snd (main E cl))) \<longleftrightarrow> ?h" by (simp add: bufs)
  have 2: "buffers (snd (main E cl)) = [BD, BDA]" if "?h" using that by (simp add: bufs)
  have 3: "queued (snd (main E cl)) =
              concat (map (\<lambda>k. let p = NextPart ?dp k in
                     [Process BD (src p) (width p div 4 * lines p) (offset p) (width p) RGB (dither f),
                      Process BDA (src p) (width p div 4 * lines p) (offset p) (width p) Alpha False])
                [0..<NumberOfParts ?dp])" if "?h"
    using that nt by (simp add: q queued_queue_part Let_def)
  have 4: "length (queued (snd (main E cl))) = 2 * NumberOfParts ?dp" if "?h"
    using that nt by (simp add: len)
  have 5: "buffers (snd (main E cl)) = [BD]" if "rgba f" using that by (simp add: bufs)
  have 6: "BDA \<notin> call_buffer ` set (queued (snd (main E cl)))" if "rgba f"
    using that by (auto simp: q queued_queue_part split: if_splits)
  from 1 2 3 4 5 6 show ?thesis by blast
qed

theorem separate_alpha_buffer_witness:
  "buffers (snd (main (example_env True)
      \<lparr> argc = 5, getopts = [Opt_a ''a.pvr''], operands = [''in.png'', ''out.pvr''] \<rparr>)) = [BD, BDA]
   \<and> queued (snd (main (example_env True)
      \<lparr> argc = 5, getopts = [Opt_a ''a.pvr''], operands = [''in.png'', ''out.pvr''] \<rparr>))
     = [Process BD 0 8 0 8 RGB False, Process BDA 0 8 0 8 Alpha False,
        Process BD 128 8 8 8 RGB False, Process BDA 128 8 8 8 Alpha False]
   \<and> buffers (snd (main (example_env True)
      \<lparr> argc = 6, getopts = [OptRgba, Opt_a ''a.pvr''], operands = [''in.png'', ''out.pvr''] \<rparr>)) = [BD]"
proof -
  let ?cl = "\<lparr> argc = 5, getopts = [Opt_a ''a.pvr''], operands = [''in.png'', ''out.pvr''] \<rparr>"
  let ?f = "flags0 \<lparr> alpha := Some ''a.pvr'' \<rparr>"
  let ?cl' = "\<lparr> argc = 6, getopts = [OptRgba, Opt_a ''a.pvr''], operands = [''in.png'', ''out.pvr''] \<rparr>"
  let ?f' = "flags0 \<lparr> rgba := True, etc2 := True, alpha := Some ''a.pvr'' \<rparr>"
  have r: "reaches_encoding ?cl ?f" by (simp add: example_simps2)
  have r': "reaches_encoding ?cl' ?f'" by (simp add: example_simps2)
  have h: "alpha ?f \<noteq> None \<and> dp_Alpha (encode_dp (example_env True) ?cl ?f) \<and> \<not> rgba ?f"
    by (simp add: example_simps2)
  have h': "rgba ?f'" by simp
  have q: "queued (snd (main (example_env True) ?cl))
     = [Process BD 0 8 0 8 RGB False, Process BDA 0 8 0 8 Alpha False,
        Process BD 128 8 8 8 RGB False, Process BDA 128 8 8 8 Alpha False]"
    by (simp add: example_simps)
  from separate_alpha_buffer [OF r, of "example_env True"] h
  have "buffers (snd (main (example_env True) ?cl)) = [BD, BDA]" by blast
  moreover from separate_alpha_buffer [OF r', of "example_env True"] h'
  have "buffers (snd (main (example_env True) ?cl')) = [BD]" by blast
  ultimately show ?thesis using q by blast
qed

text \<open>
  C4, as claimed, fails. For a part of width 8 with \<^verbatim>\<open>lines\<close> = 4 the unit is queued
  with a block count of 8 / 4 * 4 = 8, where (width * lines) / 16 is 2.
\<close>

theorem block_count_claimed_counterexample:
  "reaches_encoding
      \<lparr> argc = 3, getopts = [], operands = [''in.png'', ''out.pvr''] \<rparr> flags0
   \<and> NextPart (encode_dp (example_env False)
        \<lparr> argc = 3, getopts = [], operands = [''in.png'', ''out.pvr''] \<rparr> flags0) 0
      = \<lparr> src = 0, width = 8, lines = 4, offset = 0 \<rparr>
   \<and> queued (snd (main (example_env False)
        \<lparr> argc = 3, getopts = [], operands = [''in.png'', ''out.pvr''] \<rparr>))
      = [Process BD 0 8 0 8 RGB False, Process BD 128 8 8 8 RGB False]
   \<and> call_blocks (Process BD 0 8 0 8 RGB False) = 8
   \<and> (8 * 4 div 16 :: uint) = 2
   \<and> call_blocks (Process BD 0 8 0 8 RGB False) \<noteq> (8 * 4 div 16 :: uint)"
  by (simp add: example_simps2)

text \<open>
  C4, amended. Every unit queued for a part passes the block count
  \<^verbatim>\<open>part.width / 4 * part.lines\<close>, in unsigned 32-bit arithmetic: the units of the
  k-th part, one or two of them, all carry this count. Where the width is a multiple of
  4 and the product does not wrap around, the count is (width * (4 * lines)) / 16: the
  number of blocks of 4 * \<^verbatim>\<open>lines\<close> pixel rows, \<^verbatim>\<open>lines\<close> being a number of block rows.
\<close>

theorem block_count:
  assumes "reaches_encoding cl f"
  shows "map call_blocks (queued (snd (main E cl))) =
           concat (map (\<lambda>k. replicate (if BDA \<in> set (buffers (snd (main E cl))) then 2 else 1)
                          (width (NextPart (encode_dp E cl f) k) div 4
                             * lines (NextPart (encode_dp E cl f) k)))
                    [0..<NumberOfParts (encode_dp E cl f)])
       \<and> (\<forall>k < NumberOfParts (encode_dp E cl f).
            4 dvd unat (width (NextPart (encode_dp E cl f) k))
            \<and> unat (width (NextPart (encode_dp E cl f) k)) div 4
                * unat (lines (NextPart (encode_dp E cl f) k)) < 2 ^ 32
            \<longrightarrow> unat (width (NextPart (encode_dp E cl f) k) div 4
                       * lines (NextPart (encode_dp E cl f) k))
                = unat (width (NextPart (encode_dp E cl f) k))
                    * (4 * unat (lines (NextPart (encode_dp E cl f) k))) div 16)"
proof (rule conjI)
  show "\<forall>k < NumberOfParts (encode_dp E cl f).
            4 dvd unat (width (NextPart (encode_dp E cl f) k))
            \<and> unat (width (NextPart (encode_dp E cl f) k)) div 4
                * unat (lines (NextPart (encode_dp E cl f) k)) < 2 ^ 32
            \<longrightarrow> unat (width (NextPart (encode_dp E cl f) k) div 4
                       * lines (NextPart (encode_dp E cl f) k))
                = unat (width (NextPart (encode_dp E cl f) k))
                    * (4 * unat (lines (NextPart (encode_dp E cl f) k))) div 16"
    using unat_block_count by blast
next
  from assms obtain f0 where m:
    "main E cl = (0, dither_message f0 @ encode E f (operands cl ! 0) (operands cl ! 1))"
    by (rule reaches_encoding_main)
  let ?dp = "encode_dp E cl f"
  let ?t = "encode_type f (dp_Alpha ?dp)"
  let ?h = "alpha f \<noteq> None \<and> dp_Alpha ?dp \<and> \<not> rgba f"
  have bufs: "BDA \<in> set (buffers (snd (main E cl))) \<longleftrightarrow> ?h"
    by (simp add: m buffers_append buffers_encode Let_def encode_dp_def)
  have q: "queued (snd (main E cl)) =
      concat (map (\<lambda>k. queued (queue_part ?t ?h (dither f) (NextPart ?dp k))) [0..<NumberOfParts ?dp])"
    by (simp add: m queued_append queued_encode Let_def encode_dp_def queued_dispatch_loop)
  have nt: "?h \<Longrightarrow> ?t \<noteq> Etc2_RGBA" by (simp add: encode_type_RGBA)
  have part: "map call_blocks (queued (queue_part ?t ?h (dither f) p)) =
      replicate (if ?h then 2 else 1) (width p div 4 * lines p)" for p
    using nt by (simp add: queued_queue_part numeral_2_eq_2)
  show "map call_blocks (queued (snd (main E cl))) =
           concat (map (\<lambda>k. replicate (if BDA \<in> set (buffers (snd (main E cl))) then 2 else 1)
                          (width (NextPart (encode_dp E cl f) k) div 4
                             * lines (NextPart (encode_dp E cl f) k)))
                    [0..<NumberOfParts (encode_dp E cl f)])"
    unfolding bufs q by (simp only: map_concat map_map comp_def part)
qed

theorem block_count_witness:
  "map call_blocks (queued (snd (main (example_env True)
      \<lparr> argc = 5, getopts = [Opt_a ''a.pvr''], operands = [''in.png'', ''out.pvr''] \<rparr>)))
   = [8, 8, 8, 8]"
proof -
  let ?cl = "\<lparr> argc = 5, getopts = [Opt_a ''a.pvr''], operands = [''in.png'', ''out.pvr''] \<rparr>"
  let ?f = "flags0 \<lparr> alpha := Some ''a.pvr'' \<rparr>"
  have r: "reaches_encoding ?cl ?f" by (simp add: example_simps2)
  have b: "BDA \<in> set (buffers (snd (main (example_env True) ?cl)))" by (simp add: example_simps)
  have n: "NumberOfParts (encode_dp (example_env True) ?cl ?f) = 2"
    and p: "NextPart (encode_dp (example_env True) ?cl ?f) = example_part"
    by (simp_all add: example_simps2)
  have u: "[0..<2::nat] = [0, 1]" by (simp add: numeral_2_eq_2)
  have v: "replicate 2 w = [w, w]" for w :: uint by (simp add: numeral_2_eq_2)
  have "map call_blocks (queued (snd (main (example_env True) ?cl))) =
          concat (map (\<lambda>k. replicate 2 (width (example_part k) div 4 * lines (example_part k)))
            [0..<2])"
    unfolding block_count [OF r, of "example_env True", THEN conjunct1] n p using b by simp
  then show ?thesis
    unfolding u v by (simp add: example_part_def)
qed

text \<open>
  C5, as claimed, fails. With \<^verbatim>\<open>--rgba\<close> on a source that has no alpha channel the run
  reports nothing: it creates an \<^verbatim>\<open>Etc2_RGB\<close> buffer, queues a unit for every part,
  synchronises and returns 0.
\<close>

theorem rgba_without_alpha_counterexample:
  "rgba (flags0 \<lparr> rgba := True, etc2 := True \<rparr>)
   \<and> reaches_encoding \<lparr> argc = 4, getopts = [OptRgba], operands = [''in.png'', ''out.pvr''] \<rparr>
        (flags0 \<lparr> rgba := True, etc2 := True \<rparr>)
   \<and> \<not> dp_Alpha (encode_dp (example_env False)
        \<lparr> argc = 4, getopts = [OptRgba], operands = [''in.png'', ''out.pvr''] \<rparr>
        (flags0 \<lparr> rgba := True, etc2 := True \<rparr>))
   \<and> main (example_env False)
        \<lparr> argc = 4, getopts = [OptRgba], operands = [''in.png'', ''out.pvr''] \<rparr>
      = (0, [New_DataProvider ''in.png'' False True, New_TaskDispatch 4,
             New_BlockData BD (Some ''out.pvr'') \<lparr> x = 8, y = 32 \<rparr> False Etc2_RGB,
             Queue (Process BD 0 8 0 8 RGB False),
             Queue (Process BD 128 8 8 8 RGB False),
             Sync])"
  by (simp add: example_simps2)

text \<open>
  C5, amended. A request for RGBA output on a source without alpha is not an error: the
  encoding path falls back to \<^verbatim>\<open>Etc2_RGB\<close>, queues one unit for each part,
  synchronises and returns 0 without printing the usage. A run returns a nonzero code
  exactly when there are fewer than three arguments, or \<^verbatim>\<open>getopt_long\<close> meets an
  option it does not recognise, or an operand is missing (one is needed with \<^verbatim>\<open>-b\<close>,
  two without): no combination of recognised flags is rejected. Such a run returns 1,
  has printed the usage, and has done nothing else but possibly print the dithering
  message: no buffer was created and no encoding call queued or made.
\<close>

theorem errors_before_dispatch:
  "(reaches_encoding cl f \<and> rgba f \<and> \<not> dp_Alpha (encode_dp E cl f) \<longrightarrow>
      fst (main E cl) = 0
    \<and> block_types (snd (main E cl)) = [Etc2_RGB]
    \<and> length (queued (snd (main E cl))) = NumberOfParts (encode_dp E cl f)
    \<and> Sync \<in> set (snd (main E cl))
    \<and> Usage \<notin> set (snd (main E cl)))
   \<and> (fst (main E cl) \<noteq> 0 \<longleftrightarrow>
        argc cl < 3
      \<or> Opt_unknown \<in> set (getopts cl)
      \<or> (\<exists>f0. getopt_loop (getopts cl) flags0 = Some f0
             \<and> length (operands cl) < (if benchmark f0 then 1 else 2)))
   \<and> (fst (main E cl) \<noteq> 0 \<longrightarrow>
      fst (main E cl) = 1
    \<and> Usage \<in> set (snd (main E cl))
    \<and> set (snd (main E cl)) \<subseteq> {Printf_dither_disabled, Usage}
    \<and> buffers (snd (main E cl)) = [] \<and> calls (snd (main E cl)) = [])"
proof (intro conjI impI)
  assume a: "reaches_encoding cl f \<and> rgba f \<and> \<not> dp_Alpha (encode_dp E cl f)"
  then obtain f0 where p: "getopt_loop (getopts cl) flags0 = Some f0" and f: "f = disable_dither f0"
    and m: "main E cl = (0, dither_message f0 @ encode E f (operands cl ! 0) (operands cl ! 1))"
    by (blast elim: reaches_encoding_main)
  from a f parsed_rgba_etc2 [OF p] have e: "etc2 f" by simp
  let ?dp = "encode_dp E cl f"
  show "fst (main E cl) = 0" by (simp add: m)
  show "block_types (snd (main E cl)) = [Etc2_RGB]"
    using a e by (simp add: m block_types_append block_types_encode Let_def encode_dp_def encode_type_def)
  show "length (queued (snd (main E cl))) = NumberOfParts ?dp"
    using a length_queued_dispatch_loop [of 0 "NumberOfParts ?dp" ?dp "encode_type f (dp_Alpha ?dp)"
        "alpha f \<noteq> None \<and> dp_Alpha ?dp \<and> \<not> rgba f" "dither f"]
    by (simp add: m queued_append queued_encode Let_def encode_dp_def)
  show "Sync \<in> set (snd (main E cl))"
    by (simp add: m encode_split Let_def)
  show "Usage \<notin> set (snd (main E cl))"
    using dispatch_loop_events [of Usage 0 "NumberOfParts ?dp" ?dp]
    by (auto simp: m encode_def Let_def encode_dp_def dither_message_def)
next
  show "fst (main E cl) \<noteq> 0 \<longleftrightarrow>
        argc cl < 3
      \<or> Opt_unknown \<in> set (getopts cl)
      \<or> (\<exists>f0. getopt_loop (getopts cl) flags0 = Some f0
             \<and> length (operands cl) < (if benchmark f0 then 1 else 2))"
    by (rule main_fails_iff)
next
  assume n: "fst (main E cl) \<noteq> 0"
  then have "fst (main E cl) = 1 \<and> Usage \<in> set (snd (main E cl))
    \<and> set (snd (main E cl)) \<subseteq> {Printf_dither_disabled, Usage}
    \<and> buffers (snd (main E cl)) = [] \<and> calls (snd (main E cl)) = []"
    by (cases E cl rule: main_cases)
      (auto simp: dither_message_def buffers_append calls_append)
  then show "fst (main E cl) = 1" "Usage \<in> set (snd (main E cl))"
    "set (snd (main E cl)) \<subseteq> {Printf_dither_disabled, Usage}"
    "buffers (snd (main E cl)) = []" "calls (snd (main E cl)) = []"
    by blast+
qed

theorem errors_before_dispatch_witness:
  "block_types (snd (main (example_env False)
      \<lparr> argc = 4, getopts = [OptRgba], operands = [''in.png'', ''out.pvr''] \<rparr>)) = [Etc2_RGB]
   \<and> length (queued (snd (main (example_env False)
      \<lparr> argc = 4, getopts = [OptRgba], operands = [''in.png'', ''out.pvr''] \<rparr>))) = 2
   \<and> Sync \<in> set (snd (main (example_env False)
      \<lparr> argc = 4, getopts = [OptRgba], operands = [''in.png'', ''out.pvr''] \<rparr>))
   \<and> fst (main (example_env False)
      \<lparr> argc = 4, getopts = [OptRgba], operands = [''in.png'', ''out.pvr''] \<rparr>) = 0
   \<and> fst (main (example_env False)
      \<lparr> argc = 4, getopts = [OptDxt1, OptEtc2], operands = [''in.png'', ''out.pvr''] \<rparr>) = 0
   \<and> fst (main (example_env False)
      \<lparr> argc = 4, getopts = [Opt_d, OptEtc2], operands = [''in.png''] \<rparr>) = 1
   \<and> calls (snd (main (example_env False)
      \<lparr> argc = 4, getopts = [Opt_d, OptEtc2], operands = [''in.png''] \<rparr>)) = []
   \<and> fst (main (example_env False)
      \<lparr> argc = 4, getopts = [Opt_unknown], operands = [''in.png'', ''out.pvr''] \<rparr>) = 1"
proof -
  let ?E = "example_env False"
  let ?cl = "\<lparr> argc = 4, getopts = [OptRgba], operands = [''in.png'', ''out.pvr''] \<rparr>"
  let ?f = "flags0 \<lparr> rgba := True, etc2 := True \<rparr>"
  let ?cl' = "\<lparr> argc = 4, getopts = [Opt_d, OptEtc2], operands = [''in.png''] \<rparr>"
  let ?cl2 = "\<lparr> argc = 4, getopts = [OptDxt1, OptEtc2], operands = [''in.png'', ''out.pvr''] \<rparr>"
  let ?cl3 = "\<lparr> argc = 4, getopts = [Opt_unknown], operands = [''in.png'', ''out.pvr''] \<rparr>"
  have a: "reaches_encoding ?cl ?f \<and> rgba ?f \<and> \<not> dp_Alpha (encode_dp ?E ?cl ?f)"
    by (simp add: example_simps2)
  have n: "NumberOfParts (encode_dp ?E ?cl ?f) = 2" by (simp add: example_simps2)
  have p': "getopt_loop (getopts ?cl') flags0 = Some (flags0 \<lparr> dither := True, etc2 := True \<rparr>)"
    by simp
  have p2: "getopt_loop (getopts ?cl2) flags0 = Some (flags0 \<lparr> dxt1 := True, etc2 := True \<rparr>)"
    by simp
  from errors_before_dispatch [of ?cl ?f ?E] a n
  have 1: "fst (main ?E ?cl) = 0 \<and> block_types (snd (main ?E ?cl)) = [Etc2_RGB]
     \<and> length (queued (snd (main ?E ?cl))) = 2 \<and> Sync \<in> set (snd (main ?E ?cl))" by simp
  have "fst (main ?E ?cl') \<noteq> 0"
    using errors_before_dispatch [of ?cl' ?f ?E] p' by (simp add: flags0_def)
  with errors_before_dispatch [of ?cl' ?f ?E]
  have 2: "fst (main ?E ?cl') = 1 \<and> calls (snd (main ?E ?cl')) = []" by blast
  have 3: "fst (main ?E ?cl2) = 0"
    using errors_before_dispatch [of ?cl2 ?f ?E] p2 by (simp add: flags0_def)
  have "fst (main ?E ?cl3) \<noteq> 0"
    using errors_before_dispatch [of ?cl3 ?f ?E] by simp
  with errors_before_dispatch [of ?cl3 ?f ?E] have 4: "fst (main ?E ?cl3) = 1" by blast
  from 1 2 3 4 show ?thesis by blast
qed

text \<open>
  C7. The trace of a run of the encoding path has exactly one \<^verbatim>\<open>Sync\<close>. Before it
  lie all the queued units, as many as there are parts, or twice as many when the alpha
  buffer exists, and neither a \<^verbatim>\<open>Decode\<close> nor \<^verbatim>\<open>CalcMSE3\<close>. After it nothing is
  queued: with \<^verbatim>\<open>-s\<close> the colour buffer is decoded and measured there, and without
  it nothing follows.
\<close>

theorem sync_once_after_queueing:
  assumes "reaches_encoding cl f"
  shows "\<exists>pre post. snd (main E cl) = pre @ [Sync] @ post
           \<and> Sync \<notin> set pre \<and> Sync \<notin> set post
           \<and> (\<forall>b. Decode b \<notin> set pre) \<and> CalcMSE3 \<notin> set pre
           \<and> queued post = []
           \<and> length (queued pre) =
               NumberOfParts (encode_dp E cl f)
               * (if BDA \<in> set (buffers (snd (main E cl))) then 2 else 1)
           \<and> post = (if stats f then [Decode BD, CalcMSE3, Printf_stats] else [])"
proof -
  from assms obtain f0 where m:
    "main E cl = (0, dither_message f0 @ encode E f (operands cl ! 0) (operands cl ! 1))"
    by (rule reaches_encoding_main)
  let ?dp = "encode_dp E cl f"
  let ?t = "encode_type f (dp_Alpha ?dp)"
  let ?h = "alpha f \<noteq> None \<and> dp_Alpha ?dp \<and> \<not> rgba f"
  let ?loop = "dispatch_loop 0 (NumberOfParts ?dp) ?dp ?t ?h (dither f)"
  let ?pre = "dither_message f0
      @ [New_DataProvider (operands cl ! 0) (mipmap f) (\<not> dxt1 f), New_TaskDispatch (CPUCores E),
         New_BlockData BD (Some (operands cl ! 1)) (dp_Size ?dp) (mipmap f) ?t]
      @ (if ?h then [New_BlockData BDA (alpha f) (dp_Size ?dp) (mipmap f) ?t] else [])
      @ ?loop"
  let ?post = "if stats f then [Decode BD, CalcMSE3, Printf_stats] else []"
  have tr: "snd (main E cl) = ?pre @ [Sync] @ ?post"
    by (simp add: m encode_split Let_def encode_dp_def)
  have loop: "e \<in> set ?loop \<Longrightarrow> \<exists>c. e = Queue c" for e by (rule dispatch_loop_events)
  have 1: "Sync \<notin> set ?pre" using loop [of Sync] by (auto simp: dither_message_def)
  have 2: "Sync \<notin> set ?post" by simp
  have 3: "Decode b \<notin> set ?pre" for b using loop [of "Decode b"] by (auto simp: dither_message_def)
  have 4: "CalcMSE3 \<notin> set ?pre" using loop [of CalcMSE3] by (auto simp: dither_message_def)
  have 5: "queued ?post = []" by simp
  have b: "BDA \<in> set (buffers (snd (main E cl))) \<longleftrightarrow> ?h"
    by (simp add: m buffers_append buffers_encode Let_def encode_dp_def)
  have "?h \<Longrightarrow> ?t \<noteq> Etc2_RGBA" by (simp add: encode_type_RGBA)
  then have 6: "length (queued ?pre) = NumberOfParts ?dp * (if BDA \<in> set (buffers (snd (main E cl))) then 2 else 1)"
    unfolding b by (auto simp: queued_append length_queued_dispatch_loop)
  from tr 1 2 3 4 5 6 show ?thesis by blast
qed

theorem sync_once_after_queueing_witness:
  "\<exists>pre post.
      snd (main (example_env True)
        \<lparr> argc = 6, getopts = [Opt_s, Opt_a ''a.pvr''], operands = [''in.png'', ''out.pvr''] \<rparr>)
        = pre @ [Sync] @ post
      \<and> Sync \<notin> set pre \<and> length (queued pre) = 4 \<and> post = [Decode BD, CalcMSE3, Printf_stats]"
proof -
  let ?cl = "\<lparr> argc = 6, getopts = [Opt_s, Opt_a ''a.pvr''], operands = [''in.png'', ''out.pvr''] \<rparr>"
  let ?f = "flags0 \<lparr> stats := True, alpha := Some ''a.pvr'' \<rparr>"
  have r: "reaches_encoding ?cl ?f" by (simp add: example_simps2)
  have n: "NumberOfParts (encode_dp (example_env True) ?cl ?f) = 2" by (simp add: example_simps2)
  have b: "BDA \<in> set (buffers (snd (main (example_env True) ?cl)))" by (simp add: example_simps2)
  have s: "stats ?f" by simp
  from sync_once_after_queueing [OF r, of "example_env True"] show ?thesis
    unfolding n using b s by auto
qed

text \<open>
  C9. After the option loop \<^verbatim>\<open>rgba\<close> implies \<^verbatim>\<open>etc2\<close>. When \<^verbatim>\<open>--rgba\<close> is among
  the options, both flags are set, dithering is off after line 124, both format
  selections give an ETC2 format, every buffer the run creates has an ETC2 format and
  no encoding call of the run dithers.
\<close>

theorem rgba_implies_etc2:
  assumes "getopt_loop (getopts cl) flags0 = Some f"
  shows "(rgba f \<longrightarrow> etc2 f)
    \<and> (OptRgba \<in> set (getopts cl) \<longrightarrow>
         rgba f \<and> etc2 f \<and> \<not> dither (disable_dither f)
         \<and> is_etc2 (benchmark_type (disable_dither f))
         \<and> is_etc2 (encode_type (disable_dither f) a)
         \<and> (\<forall>t \<in> set (block_types (snd (main E cl))). is_etc2 t)
         \<and> (\<forall>c \<in> set (calls (snd (main E cl))). call_dither c \<noteq> Some True))"
proof (intro conjI impI)
  show "rgba f \<Longrightarrow> etc2 f" using assms by (rule parsed_rgba_etc2)
next
  assume o: "OptRgba \<in> set (getopts cl)"
  show r: "rgba f" using o assms by (rule getopt_loop_OptRgba)
  show e: "etc2 f" using assms r by (rule parsed_rgba_etc2)
  show nd: "\<not> dither (disable_dither f)" using e by simp
  show "is_etc2 (benchmark_type (disable_dither f))" using r by (simp add: is_etc2_benchmark_type)
  show "is_etc2 (encode_type (disable_dither f) a)" using e by simp
  show "\<forall>t \<in> set (block_types (snd (main E cl))). is_etc2 t"
  proof (cases E cl rule: main_cases)
    case (bench_encode f0)
    with assms have "f0 = f" by simp
    with bench_encode r show ?thesis
      by (simp add: block_types_append block_types_benchmark_encode is_etc2_benchmark_type)
  next
    case (encode f0)
    with assms have "f0 = f" by simp
    with encode e show ?thesis
      by (simp add: block_types_append block_types_encode Let_def)
  qed (simp_all add: block_types_append)
  show "\<forall>c \<in> set (calls (snd (main E cl))). call_dither c \<noteq> Some True"
  proof (cases E cl rule: main_cases)
    case (bench_encode f0)
    with assms have "f0 = f" by simp
    with bench_encode nd show ?thesis
      by (auto simp: calls_append elim!: calls_benchmark_encode_cases)
  next
    case (encode f0)
    with assms have "f0 = f" by simp
    with encode nd show ?thesis
      by (auto simp: calls_append calls_encode elim!: queued_encode_cases)
  qed (simp_all add: calls_append)
qed

theorem rgba_implies_etc2_witness:
  "rgba (flags0 \<lparr> dither := True, rgba := True, etc2 := True \<rparr>)
   \<and> etc2 (flags0 \<lparr> dither := True, rgba := True, etc2 := True \<rparr>)
   \<and> \<not> dither (disable_dither (flags0 \<lparr> dither := True, rgba := True, etc2 := True \<rparr>))
   \<and> is_etc2 (encode_type (disable_dither (flags0 \<lparr> dither := True, rgba := True, etc2 := True \<rparr>)) False)"
proof -
  let ?cl = "\<lparr> argc = 5, getopts = [Opt_d, OptRgba], operands = [''in.png'', ''out.pvr''] \<rparr>"
  let ?f = "flags0 \<lparr> dither := True, rgba := True, etc2 := True \<rparr>"
  have p: "getopt_loop (getopts ?cl) flags0 = Some ?f" by (simp add: flags0_def)
  have o: "OptRgba \<in> set (getopts ?cl)" by simp
  from rgba_implies_etc2 [OF p, of False "example_env False"] o show ?thesis by blast
qed

text \<open>
  C10. Every unit queued on the separate alpha buffer \<^verbatim>\<open>bda\<close> is a call of
  \<^verbatim>\<open>Process\<close> on the alpha channel whose dither argument is \<^verbatim>\<open>false\<close>, whatever
  the options were. The run below has \<^verbatim>\<open>-d\<close> and the ETC1 format: its colour units
  dither, its alpha units do not.
\<close>

theorem alpha_units_not_dithered:
  assumes "main E cl = (code, tr)" and "c \<in> set (queued tr)" and "call_buffer c = BDA"
  shows "\<exists>s n off w. c = Process BDA s n off w Alpha False"
proof (cases E cl rule: main_cases)
  case (encode f0)
  with assms(1) have "tr = dither_message f0 @ encode E (disable_dither f0) (operands cl ! 0) (operands cl ! 1)"
    by simp
  with assms(2) have "c \<in> set (queued (encode E (disable_dither f0) (operands cl ! 0) (operands cl ! 1)))"
    by (simp add: queued_append)
  then show ?thesis using assms(3) by (cases rule: queued_encode_cases) auto
qed (use assms in \<open>auto simp: queued_append\<close>)

theorem alpha_units_not_dithered_witness:
  "Process BD 0 8 0 8 RGB True \<in> set (queued (snd (main (example_env True)
     \<lparr> argc = 6, getopts = [Opt_d, Opt_a ''a.pvr''], operands = [''in.png'', ''out.pvr''] \<rparr>)))
   \<and> (\<exists>s n off w. Process BDA 0 8 0 8 Alpha False = Process BDA s n off w Alpha False)"
proof -
  let ?cl = "\<lparr> argc = 6, getopts = [Opt_d, Opt_a ''a.pvr''], operands = [''in.png'', ''out.pvr''] \<rparr>"
  let ?tr = "snd (main (example_env True) ?cl)"
  have m: "main (example_env True) ?cl = (0, ?tr)" by (simp add: example_simps)
  have q: "queued ?tr = [Process BD 0 8 0 8 RGB True, Process BDA 0 8 0 8 Alpha False,
                         Process BD 128 8 8 8 RGB True, Process BDA 128 8 8 8 Alpha False]"
    by (simp add: example_simps)
  have "Process BDA 0 8 0 8 Alpha False \<in> set (queued ?tr)" by (simp add: q)
  from alpha_units_not_dithered [OF m this] q show ?thesis by simp
qed

end
